theory Spec2Isabelle
  imports Main
begin

section \<open>JavaScript integer arithmetic\<close>

text \<open>
  The engine in \<^verbatim>\<open>tests/nyse-token-hook.ts\<close> computes on JavaScript numbers that hold
  integers (epoch seconds, day counts, calendar fields), far inside the range where a
  double is exact. They are modelled as \<^typ>\<open>int\<close>.  \<^verbatim>\<open>Math.floor(a / b)\<close> with a
  positive integer \<^verbatim>\<open>b\<close> is \<^term>\<open>a div b\<close>.  The JavaScript remainder \<^verbatim>\<open>a % b\<close>
  truncates towards zero: its sign is the sign of the dividend.
\<close>

definition js_rem :: "int \<Rightarrow> int \<Rightarrow> int" where
  "js_rem a b = sgn a * (\<bar>a\<bar> mod \<bar>b\<bar>)"

text \<open>
  Reading an array at an index: \<^verbatim>\<open>undefined\<close> outside the array. Adding
  \<^verbatim>\<open>undefined\<close> to a number gives \<^verbatim>\<open>NaN\<close>, modelled as \<^term>\<open>None\<close>.
\<close>

definition js_index :: "int list \<Rightarrow> int \<Rightarrow> int option" where
  "js_index xs i = (if 0 \<le> i \<and> i < int (length xs) then Some (xs ! nat i) else None)"

section \<open>EpochCalendar\<close>

definition isLeapYear :: "int \<Rightarrow> bool" where
  "isLeapYear yr \<longleftrightarrow> (js_rem yr 4 = 0 \<and> js_rem yr 100 \<noteq> 0) \<or> js_rem yr 400 = 0"

text \<open>The month-length table chosen by \<^verbatim>\<open>isLeapYear(year) ? [...] : [...]\<close>.\<close>

definition daysInMonths :: "int \<Rightarrow> int list" where
  "daysInMonths yr =
     (if isLeapYear yr
      then [31, 29, 31, 30, 31, 30, 31, 31, 30, 31, 30, 31]
      else [31, 28, 31, 30, 31, 30, 31, 31, 30, 31, 30, 31])"

text \<open>
  The weekday expression \<^verbatim>\<open>(((days + 4) % 7) + 7) % 7\<close>, written out in
  \<^verbatim>\<open>daysSinceEpochToDate\<close>, \<^verbatim>\<open>getNthWeekdayOfMonth\<close>, \<^verbatim>\<open>getLastWeekdayOfMonth\<close>
  and \<^verbatim>\<open>convertUTCToEasternSimple\<close>.
\<close>

definition weekdayOfDays :: "int \<Rightarrow> int" where
  "weekdayOfDays days = js_rem (js_rem (days + 4) 7 + 7) 7"

record DateInfo =
  year :: int
  month :: int
  day :: int
  weekday :: int

text \<open>The \<^verbatim>\<open>while (remainingDays >= 365)\<close> loop of \<^verbatim>\<open>daysSinceEpochToDate\<close>:
  it returns the year and the remaining days.\<close>

function stripYears :: "int \<Rightarrow> int \<Rightarrow> int \<times> int" where
  "stripYears yr remainingDays =
     (if remainingDays \<ge> 365 then
        (if remainingDays \<ge> (if isLeapYear yr then 366 else 365)
         then stripYears (yr + 1) (remainingDays - (if isLeapYear yr then 366 else 365))
         else (yr, remainingDays))
      else (yr, remainingDays))"
  by pat_completeness auto
termination
  by (relation "measure (\<lambda>(yr, r). nat r)") auto

text \<open>The \<^verbatim>\<open>for (const daysInMonth of daysInMonths)\<close> loop with its \<^verbatim>\<open>break\<close>:
  it returns the month and the remaining days.\<close>

fun stripMonths :: "int list \<Rightarrow> int \<Rightarrow> int \<Rightarrow> int \<times> int" where
  "stripMonths [] mo remainingDays = (mo, remainingDays)"
| "stripMonths (daysInMonth # rest) mo remainingDays =
     (if remainingDays < daysInMonth then (mo, remainingDays)
      else stripMonths rest (mo + 1) (remainingDays - daysInMonth))"

definition daysSinceEpochToDate :: "int \<Rightarrow> DateInfo" where
  "daysSinceEpochToDate days =
     (let (yr, r1) = stripYears 1970 days;
          (mo, r2) = stripMonths (daysInMonths yr) 1 r1
      in \<lparr> year = yr, month = mo, day = r2 + 1, weekday = weekdayOfDays days \<rparr>)"

definition getDaysInMonth :: "int \<Rightarrow> int \<Rightarrow> int" where
  "getDaysInMonth yr mo =
     (if mo = 1 \<or> mo = 3 \<or> mo = 5 \<or> mo = 7 \<or> mo = 8 \<or> mo = 10 \<or> mo = 12 then 31
      else if mo = 4 \<or> mo = 6 \<or> mo = 9 \<or> mo = 11 then 30
      else if mo = 2 then (if isLeapYear yr then 29 else 28)
      else 30)"

text \<open>The loop \<^verbatim>\<open>for (let y = 1970; y < year; y++) days += ...\<close>.\<close>

function addYears :: "int \<Rightarrow> int \<Rightarrow> int \<Rightarrow> int" where
  "addYears yr y days =
     (if y < yr then addYears yr (y + 1) (days + (if isLeapYear y then 366 else 365))
      else days)"
  by pat_completeness auto
termination
  by (relation "measure (\<lambda>(yr, y, days). nat (yr - y))") auto

text \<open>The loop \<^verbatim>\<open>for (let m = 1; m < month; m++) days += daysInMonths[m - 1]\<close>;
  \<^term>\<open>None\<close> is \<^verbatim>\<open>NaN\<close>, which the sum becomes once the table is read past its end
  and stays from then on.\<close>

function addMonths :: "int list \<Rightarrow> int \<Rightarrow> int \<Rightarrow> int option \<Rightarrow> int option" where
  "addMonths tbl mo m days =
     (if m < mo then
        addMonths tbl mo (m + 1)
          (case days of None \<Rightarrow> None
           | Some d \<Rightarrow> (case js_index tbl (m - 1) of None \<Rightarrow> None | Some x \<Rightarrow> Some (d + x)))
      else days)"
  by pat_completeness auto
termination
  by (relation "measure (\<lambda>(tbl, mo, m, days). nat (mo - m))") auto

definition dateToDatesSinceEpoch :: "int \<Rightarrow> int \<Rightarrow> int \<Rightarrow> int option" where
  "dateToDatesSinceEpoch yr mo dy =
     (case addMonths (daysInMonths yr) mo 1 (Some (addYears yr 1970 0)) of
        None \<Rightarrow> None
      | Some days \<Rightarrow> Some (days + (dy - 1)))"

section \<open>NthWeekdayResolver\<close>

text \<open>
  The scan \<^verbatim>\<open>for (let day = 1; day <= daysInMonth; day++)\<close> of
  \<^verbatim>\<open>getNthWeekdayOfMonth\<close>, with the loop variable and the running count as
  arguments. \<^term>\<open>Some d\<close> is the \<^verbatim>\<open>return day\<close> inside the loop, \<^term>\<open>None\<close> is
  leaving the loop at its end. A \<^verbatim>\<open>NaN\<close> day count gives a \<^verbatim>\<open>NaN\<close> weekday, which
  is \<^verbatim>\<open>===\<close> to no target.
\<close>

function nthScan :: "int \<Rightarrow> int \<Rightarrow> int \<Rightarrow> int \<Rightarrow> int \<Rightarrow> int \<Rightarrow> int \<Rightarrow> int option" where
  "nthScan yr mo targetWeekday occurrence daysInMonth dy count =
     (if dy \<le> daysInMonth then
        (if (case dateToDatesSinceEpoch yr mo dy of
               None \<Rightarrow> False
             | Some daysSinceEpoch \<Rightarrow> weekdayOfDays daysSinceEpoch = targetWeekday)
         then (if count + 1 = occurrence then Some dy
               else nthScan yr mo targetWeekday occurrence daysInMonth (dy + 1) (count + 1))
         else nthScan yr mo targetWeekday occurrence daysInMonth (dy + 1) count)
      else None)"
  by pat_completeness auto
termination
  by (relation "measure (\<lambda>(yr, mo, t, occ, n, dy, c). nat (n + 1 - dy))") auto

definition getNthWeekdayOfMonth :: "int \<Rightarrow> int \<Rightarrow> int \<Rightarrow> int \<Rightarrow> int" where
  "getNthWeekdayOfMonth yr mo targetWeekday occurrence =
     (case nthScan yr mo targetWeekday occurrence (getDaysInMonth yr mo) 1 0 of
        Some dy \<Rightarrow> dy
      | None \<Rightarrow> 1)"

text \<open>The backward scan \<^verbatim>\<open>for (let day = daysInMonth; day >= 1; day--)\<close> of
  \<^verbatim>\<open>getLastWeekdayOfMonth\<close>.\<close>

function lastScan :: "int \<Rightarrow> int \<Rightarrow> int \<Rightarrow> int \<Rightarrow> int option" where
  "lastScan yr mo targetWeekday dy =
     (if dy \<ge> 1 then
        (if (case dateToDatesSinceEpoch yr mo dy of
               None \<Rightarrow> False
             | Some daysSinceEpoch \<Rightarrow> weekdayOfDays daysSinceEpoch = targetWeekday)
         then Some dy
         else lastScan yr mo targetWeekday (dy - 1))
      else None)"
  by pat_completeness auto
termination
  by (relation "measure (\<lambda>(yr, mo, t, dy). nat dy)") auto

definition getLastWeekdayOfMonth :: "int \<Rightarrow> int \<Rightarrow> int \<Rightarrow> int" where
  "getLastWeekdayOfMonth yr mo targetWeekday =
     (case lastScan yr mo targetWeekday (getDaysInMonth yr mo) of
        Some dy \<Rightarrow> dy
      | None \<Rightarrow> 1)"

section \<open>DSTCalculator\<close>

definition isDSTInEffect :: "int \<Rightarrow> int \<Rightarrow> int \<Rightarrow> int \<Rightarrow> bool" where
  "isDSTInEffect yr mo dy wd =
     (if mo < 3 \<or> mo > 11 then False
      else if mo > 3 \<and> mo < 11 then True
      else if mo = 3 then dy \<ge> getNthWeekdayOfMonth yr 3 0 2
      else if mo = 11 then dy < getNthWeekdayOfMonth yr 11 0 1
      else False)"

section \<open>HolidayCalendar\<close>

text \<open>\<^verbatim>\<open>checkNYSEHoliday\<close>: the source's sequence of guarded \<^verbatim>\<open>return\<close>s, in its
  order; \<^term>\<open>None\<close> is \<^verbatim>\<open>null\<close>.\<close>

definition checkNYSEHoliday :: "int \<Rightarrow> int \<Rightarrow> int \<Rightarrow> int \<Rightarrow> string option" where
  "checkNYSEHoliday yr mo dy wd =
     (if mo = 1 \<and> dy = 1 \<and> wd \<noteq> 0 \<and> wd \<noteq> 6 then Some ''New Year's Day''
      else if mo = 1 \<and> dy = 2 \<and> wd = 1 then Some ''New Year's Day (Observed)''
      else if mo = 1 \<and> dy = 3 \<and> wd = 1 then Some ''New Year's Day (Observed)''
      else if mo = 1 \<and> dy = getNthWeekdayOfMonth yr 1 1 3 then Some ''Martin Luther King Jr. Day''
      else if mo = 2 \<and> dy = getNthWeekdayOfMonth yr 2 1 3 then Some ''Presidents Day''
      else if mo = 5 \<and> dy = getLastWeekdayOfMonth yr 5 1 then Some ''Memorial Day''
      else if mo = 6 \<and> dy = 19 \<and> wd \<noteq> 0 \<and> wd \<noteq> 6 then Some ''Juneteenth''
      else if mo = 6 \<and> dy = 20 \<and> wd = 1 then Some ''Juneteenth (Observed)''
      else if mo = 6 \<and> dy = 21 \<and> wd = 1 then Some ''Juneteenth (Observed)''
      else if mo = 7 \<and> dy = 4 \<and> wd \<noteq> 0 \<and> wd \<noteq> 6 then Some ''Independence Day''
      else if mo = 7 \<and> dy = 5 \<and> wd = 1 then Some ''Independence Day (Observed)''
      else if mo = 7 \<and> dy = 6 \<and> wd = 1 then Some ''Independence Day (Observed)''
      else if mo = 9 \<and> dy = getNthWeekdayOfMonth yr 9 1 1 then Some ''Labor Day''
      else if mo = 11 \<and> dy = getNthWeekdayOfMonth yr 11 4 4 then Some ''Thanksgiving Day''
      else if mo = 12 \<and> dy = 25 \<and> wd \<noteq> 0 \<and> wd \<noteq> 6 then Some ''Christmas Day''
      else if mo = 12 \<and> dy = 26 \<and> wd = 1 then Some ''Christmas Day (Observed)''
      else if mo = 12 \<and> dy = 27 \<and> wd = 1 then Some ''Christmas Day (Observed)''
      else None)"

section \<open>MarketStateEvaluator\<close>

record EasternTime = DateInfo +
  hour :: int
  minute :: int
  second :: int
  isDST :: bool

text \<open>A \<^verbatim>\<open>Date\<close> is modelled by what \<^verbatim>\<open>getTime()\<close> returns for it: integer
  milliseconds since the epoch (a valid date).\<close>

definition convertUTCToEastern :: "int \<Rightarrow> EasternTime" where
  "convertUTCToEastern utcDate =
     (let utcTimestamp = utcDate div 1000;
          daysSinceEpoch = utcTimestamp div 86400;
          dateInfo = daysSinceEpochToDate daysSinceEpoch;
          dst = isDSTInEffect (year dateInfo) (month dateInfo) (day dateInfo) (weekday dateInfo);
          easternOffsetHours = (if dst then - 4 else - 5);
          easternTimestamp = utcTimestamp + easternOffsetHours * 3600;
          easternSecondsToday = js_rem (js_rem easternTimestamp 86400 + 86400) 86400
      in \<lparr> year = year dateInfo, month = month dateInfo, day = day dateInfo,
           weekday = weekday dateInfo,
           hour = easternSecondsToday div 3600,
           minute = js_rem easternSecondsToday 3600 div 60,
           second = js_rem easternSecondsToday 60,
           isDST = dst \<rparr>)"

text \<open>\<^verbatim>\<open>Number.prototype.toString()\<close> on an integer, and \<^verbatim>\<open>padStart(2, "0")\<close>.\<close>

fun natDigits :: "nat \<Rightarrow> string" where
  "natDigits n =
     (if n < 10 then [''0123456789'' ! n]
      else natDigits (n div 10) @ [''0123456789'' ! (n mod 10)])"

definition toString :: "int \<Rightarrow> string" where
  "toString i = (if i < 0 then CHR ''-'' # natDigits (nat (- i)) else natDigits (nat i))"

definition padStart2 :: "string \<Rightarrow> string" where
  "padStart2 s = replicate (2 - length s) CHR ''0'' @ s"

definition easternTimeString :: "EasternTime \<Rightarrow> string" where
  "easternTimeString easternTime =
     toString (year easternTime) @ ''-'' @ padStart2 (toString (month easternTime)) @ ''-'' @
     padStart2 (toString (day easternTime)) @ '' '' @ padStart2 (toString (hour easternTime)) @
     '':'' @ padStart2 (toString (minute easternTime)) @ '':'' @
     padStart2 (toString (second easternTime)) @ '' '' @
     (if isDST easternTime then ''EDT'' else ''EST'')"

record MarketState =
  status :: string
  isOpen :: bool
  reason :: string
  easternTime :: string

text \<open>
  The body of \<^verbatim>\<open>getCurrentNYSEMarketState\<close> (first file) from the point where
  \<^verbatim>\<open>easternTime\<close> is known: weekend, then holiday (\<^verbatim>\<open>if (holidayName)\<close> is false
  for \<^verbatim>\<open>null\<close> and for the empty string), then the trading-hours window.
\<close>

definition marketStateOf :: "EasternTime \<Rightarrow> MarketState" where
  "marketStateOf et =
     (if weekday et = 0 \<or> weekday et = 6 then
        \<lparr> status = ''WEEKEND'', isOpen = False, reason = ''Weekend'',
          easternTime = easternTimeString et \<rparr>
      else
        (case checkNYSEHoliday (year et) (month et) (day et) (weekday et) of
           Some holidayName \<Rightarrow>
             (if holidayName \<noteq> [] then
                \<lparr> status = ''HOLIDAY'', isOpen = False, reason = holidayName,
                  easternTime = easternTimeString et \<rparr>
              else
                (let currentMinutes = hour et * 60 + minute et;
                     marketOpenMinutes = 9 * 60 + 30;
                     marketCloseMinutes = 16 * 60
                 in if currentMinutes \<ge> marketOpenMinutes \<and> currentMinutes < marketCloseMinutes then
                      \<lparr> status = ''OPEN'', isOpen = True, reason = ''Regular Trading Hours'',
                        easternTime = easternTimeString et \<rparr>
                    else
                      \<lparr> status = ''AFTER_HOURS'', isOpen = False,
                        reason = (if currentMinutes < marketOpenMinutes then ''Pre-Market''
                                  else ''After-Market'') @ '' (outside 9:30 AM - 4:00 PM ET)'',
                        easternTime = easternTimeString et \<rparr>))
         | None \<Rightarrow>
             (let currentMinutes = hour et * 60 + minute et;
                  marketOpenMinutes = 9 * 60 + 30;
                  marketCloseMinutes = 16 * 60
              in if currentMinutes \<ge> marketOpenMinutes \<and> currentMinutes < marketCloseMinutes then
                   \<lparr> status = ''OPEN'', isOpen = True, reason = ''Regular Trading Hours'',
                     easternTime = easternTimeString et \<rparr>
                 else
                   \<lparr> status = ''AFTER_HOURS'', isOpen = False,
                     reason = (if currentMinutes < marketOpenMinutes then ''Pre-Market''
                               else ''After-Market'') @ '' (outside 9:30 AM - 4:00 PM ET)'',
                     easternTime = easternTimeString et \<rparr>)))"

text \<open>
  \<^verbatim>\<open>getCurrentNYSEMarketState\<close> has no parameter: \<^verbatim>\<open>const now = new Date()\<close> reads
  the wall clock of the machine it runs on. That read is an effect, written as state
  passing over the environment of the call: \<open>clock k\<close> is the value (milliseconds since the
  epoch) that the \<open>k\<close>-th read of the machine's clock returns, and \<open>reads\<close> counts the
  reads made so far. \<^verbatim>\<open>new Date()\<close> returns the current reading and counts one read.
  (The \<^verbatim>\<open>console.log\<close> calls of the second file are not modelled.)
\<close>

record World =
  clock :: "nat \<Rightarrow> int"
  reads :: nat

definition newDate :: "World \<Rightarrow> int \<times> World" where
  "newDate w = (clock w (reads w), w\<lparr> reads := Suc (reads w) \<rparr>)"

definition getCurrentNYSEMarketState :: "World \<Rightarrow> MarketState \<times> World" where
  "getCurrentNYSEMarketState w =
     (let (now, w1) = newDate w in (marketStateOf (convertUTCToEastern now), w1))"

section \<open>The simplified engine (second test file)\<close>

definition isDaylightSavingTimeSimple :: "int \<Rightarrow> bool" where
  "isDaylightSavingTimeSimple utcTimestamp =
     (let daysSinceEpoch = utcTimestamp div 86400;
          approxYear = 1970 + daysSinceEpoch div 365;
          daysInYear = js_rem daysSinceEpoch 365
      in if approxYear \<ge> 2007 then daysInYear \<ge> 70 \<and> daysInYear \<le> 305
         else daysInYear \<ge> 90 \<and> daysInYear \<le> 300)"

definition daysToDateSimple :: "int \<Rightarrow> int \<times> int \<times> int" where
  "daysToDateSimple daysSinceEpoch =
     (let approxYear = 1970 + daysSinceEpoch div 365;
          remainingDays = js_rem daysSinceEpoch 365;
          (mo, daysLeft) =
             stripMonths [31, 28, 31, 30, 31, 30, 31, 31, 30, 31, 30, 31] 1 remainingDays
      in (approxYear, mo, max (daysLeft + 1) 1))"

definition isNYSEHolidaySimple :: "int \<Rightarrow> int \<Rightarrow> int \<Rightarrow> bool" where
  "isNYSEHolidaySimple yr mo dy =
     (if mo = 1 then dy = 1
      else if mo = 7 then dy = 4
      else if mo = 12 then dy = 25
      else False)"

definition convertUTCToEasternSimple :: "int \<Rightarrow> EasternTime" where
  "convertUTCToEasternSimple utcDate =
     (let utcTimestamp = utcDate div 1000;
          dst = isDaylightSavingTimeSimple utcTimestamp;
          easternOffsetSeconds = (if dst then - 4 * 3600 else - 5 * 3600);
          easternTimestamp = utcTimestamp + easternOffsetSeconds;
          daysSinceEpoch = easternTimestamp div 86400;
          secondsInDay0 = js_rem easternTimestamp 86400;
          secondsInDay = (if secondsInDay0 < 0 then secondsInDay0 + 86400 else secondsInDay0);
          (yr, mo, dy) = daysToDateSimple daysSinceEpoch
      in \<lparr> year = yr, month = mo, day = dy,
           weekday = weekdayOfDays daysSinceEpoch,
           hour = secondsInDay div 3600,
           minute = js_rem secondsInDay 3600 div 60,
           second = js_rem secondsInDay 60,
           isDST = dst \<rparr>)"

text \<open>The second file's \<^verbatim>\<open>getCurrentNYSEMarketState\<close> and its body after the
  conversion; its time string ends with the weekday.\<close>

definition marketStateOfSimple :: "EasternTime \<Rightarrow> MarketState" where
  "marketStateOfSimple et =
     (let easternTimeStr = easternTimeString et @ '' (Weekday: '' @ toString (weekday et) @ '')''
      in if weekday et = 0 \<or> weekday et = 6 then
           \<lparr> status = ''WEEKEND'', isOpen = False, reason = ''Weekend'',
             easternTime = easternTimeStr \<rparr>
         else if isNYSEHolidaySimple (year et) (month et) (day et) then
           \<lparr> status = ''HOLIDAY'', isOpen = False, reason = ''NYSE Holiday'',
             easternTime = easternTimeStr \<rparr>
         else
           (let currentMinutes = hour et * 60 + minute et;
                marketOpenMinutes = 9 * 60 + 30;
                marketCloseMinutes = 16 * 60
            in if currentMinutes \<ge> marketOpenMinutes \<and> currentMinutes < marketCloseMinutes then
                 \<lparr> status = ''OPEN'', isOpen = True, reason = ''Regular Trading Hours'',
                   easternTime = easternTimeStr \<rparr>
               else
                 \<lparr> status = ''AFTER_HOURS'', isOpen = False,
                   reason = (if currentMinutes < marketOpenMinutes then ''Pre-Market''
                             else ''After-Market'') @ '' (outside 9:30 AM - 4:00 PM ET)'',
                   easternTime = easternTimeStr \<rparr>))"

definition getCurrentNYSEMarketStateSimple :: "World \<Rightarrow> MarketState \<times> World" where
  "getCurrentNYSEMarketStateSimple w =
     (let (now, w1) = newDate w in (marketStateOfSimple (convertUTCToEasternSimple now), w1))"

section \<open>Calendar notions of the specification\<close>

text \<open>
  The specification speaks of the weekday of a calendar date and of the N-th and the last
  occurrence of a weekday in a month. These predicates follow its words; they read the
  calendar through \<^verbatim>\<open>dateToDatesSinceEpoch\<close> and \<^verbatim>\<open>daysSinceEpochToDate\<close>.
\<close>

definition weekdayOfDate :: "int \<Rightarrow> int \<Rightarrow> int \<Rightarrow> int option" where
  "weekdayOfDate yr mo dy =
     map_option (\<lambda>ds. weekday (daysSinceEpochToDate ds)) (dateToDatesSinceEpoch yr mo dy)"

definition isNthWeekdayOfMonth :: "int \<Rightarrow> int \<Rightarrow> int \<Rightarrow> int \<Rightarrow> int \<Rightarrow> bool" where
  "isNthWeekdayOfMonth yr mo t occ d \<longleftrightarrow>
     1 \<le> d \<and> d \<le> getDaysInMonth yr mo \<and> weekdayOfDate yr mo d = Some t \<and>
     int (length (filter (\<lambda>k. weekdayOfDate yr mo k = Some t) [1..d])) = occ"

definition isLastWeekdayOfMonth :: "int \<Rightarrow> int \<Rightarrow> int \<Rightarrow> int \<Rightarrow> bool" where
  "isLastWeekdayOfMonth yr mo t d \<longleftrightarrow>
     1 \<le> d \<and> d \<le> getDaysInMonth yr mo \<and> weekdayOfDate yr mo d = Some t \<and>
     list_all (\<lambda>k. weekdayOfDate yr mo k \<noteq> Some t) [d + 1..getDaysInMonth yr mo]"

text \<open>
  Two machine clocks for concrete executions: one that returns the same instant at every
  read, and one that advances by a millisecond per read.
\<close>

definition fixedClock :: "int \<Rightarrow> nat \<Rightarrow> int" where
  "fixedClock t k = t"


text \<open>The four fixed-date holidays the specification names, as (month, day, name).\<close>

definition fixedHolidays :: "(int \<times> int \<times> string) list" where
  "fixedHolidays =
     [(1, 1, ''New Year's Day''), (6, 19, ''Juneteenth''),
      (7, 4, ''Independence Day''), (12, 25, ''Christmas Day'')]"

declare stripYears.simps [simp del] addYears.simps [simp del] addMonths.simps [simp del]
declare nthScan.simps [simp del] lastScan.simps [simp del] natDigits.simps [simp del]

section \<open>Arithmetic of the JavaScript remainder\<close>

lemma js_rem_nonneg: "0 \<le> a \<Longrightarrow> 0 < b \<Longrightarrow> js_rem a b = a mod b"
  by (cases "a = 0") (simp_all add: js_rem_def)

lemma js_rem_neg: "a < 0 \<Longrightarrow> 0 < b \<Longrightarrow> js_rem a b = - ((- a) mod b)"
  by (simp add: js_rem_def)

lemma js_rem_eq_0_iff: "0 < b \<Longrightarrow> js_rem a b = 0 \<longleftrightarrow> a mod b = 0"
  by (auto simp: js_rem_def mod_eq_0_iff_dvd sgn_eq_0_iff)

lemma js_rem_wrap: "js_rem (js_rem a 7 + 7) 7 = a mod 7"
proof (cases "a < 0")
  case True
  then have "js_rem a 7 = - ((- a) mod 7)" by (simp add: js_rem_neg)
  moreover have "0 \<le> - ((- a) mod 7) + 7"
    using pos_mod_bound [of 7 "- a"] by linarith
  ultimately have "js_rem (js_rem a 7 + 7) 7 = (- ((- a) mod 7) + 7) mod 7"
    by (simp add: js_rem_nonneg)
  also have "\<dots> = a mod 7"
    by (simp add: mod_minus_eq)
  finally show ?thesis .
next
  case False
  then have "js_rem a 7 = a mod 7" by (simp add: js_rem_nonneg)
  then show ?thesis by (simp add: js_rem_nonneg)
qed

lemma weekdayOfDays_mod: "weekdayOfDays days = (days + 4) mod 7"
  by (simp add: weekdayOfDays_def js_rem_wrap)

lemma isLeapYear_mod: "isLeapYear yr \<longleftrightarrow> (yr mod 4 = 0 \<and> yr mod 100 \<noteq> 0) \<or> yr mod 400 = 0"
  by (simp add: isLeapYear_def js_rem_eq_0_iff)


section \<open>The epoch calendar: round trip and negative day counts\<close>

lemma addYears_done: "yr \<le> y \<Longrightarrow> addYears yr y acc = acc"
  by (simp add: addYears.simps)

lemma addYears_step:
  "y \<le> yr \<Longrightarrow> addYears (yr + 1) y acc = addYears yr y acc + (if isLeapYear yr then 366 else 365)"
proof (induction yr y acc rule: addYears.induct)
  case (1 yr y days)
  show ?case
  proof (cases "y < yr")
    case True
    with 1 show ?thesis
      by (simp add: addYears.simps [of yr y] addYears.simps [of "yr + 1" y])
  next
    case False
    with 1 have "y = yr" by simp
    then show ?thesis
      by (simp add: addYears.simps [of "yr + 1" yr] addYears_done)
  qed
qed

lemma stripYears_inv:
  "stripYears y0 r0 = (y, r) \<Longrightarrow> 1970 \<le> y0 \<Longrightarrow> 0 \<le> r0 \<Longrightarrow>
     y0 \<le> y \<and> 0 \<le> r \<and> r < (if isLeapYear y then 366 else 365) \<and>
     addYears y 1970 0 + r = addYears y0 1970 0 + r0"
proof (induction y0 r0 rule: stripYears.induct)
  case (1 yr remainingDays)
  show ?case
  proof (cases "remainingDays \<ge> 365 \<and> remainingDays \<ge> (if isLeapYear yr then 366 else 365)")
    case True
    then have rec: "stripYears (yr + 1) (remainingDays - (if isLeapYear yr then 366 else 365)) = (y, r)"
      using "1.prems"(1) by (simp add: stripYears.simps [of yr remainingDays])
    have "yr + 1 \<le> y \<and> 0 \<le> r \<and> r < (if isLeapYear y then 366 else 365) \<and>
          addYears y 1970 0 + r = addYears (yr + 1) 1970 0 + (remainingDays - (if isLeapYear yr then 366 else 365))"
      using "1.IH" [OF _ _ rec] True "1.prems"(2) by (simp split: if_splits)
    then show ?thesis
      using addYears_step [of 1970 yr 0] "1.prems"(2) by (simp split: if_splits)
  next
    case False
    then have "(y, r) = (yr, remainingDays)"
      using "1.prems"(1) by (simp add: stripYears.simps [of yr remainingDays] split: if_splits)
    then show ?thesis using False "1.prems" by (auto split: if_splits)
  qed
qed

lemma stripMonths_inv:
  "stripMonths xs m r0 = (mo, r) \<Longrightarrow>
     \<exists>k \<le> length xs. mo = m + int k \<and> r = r0 - sum_list (take k xs) \<and>
        (k < length xs \<longrightarrow> r < xs ! k) \<and> (0 \<le> r0 \<and> (\<forall>x \<in> set xs. 0 \<le> x) \<longrightarrow> 0 \<le> r)"
proof (induction xs arbitrary: m r0)
  case Nil
  then show ?case by simp
next
  case (Cons x xs)
  show ?case
  proof (cases "r0 < x")
    case True
    with Cons.prems have "mo = m" "r = r0" by simp_all
    with True show ?thesis by (intro exI [of _ 0]) simp
  next
    case False
    with Cons.prems have "stripMonths xs (m + 1) (r0 - x) = (mo, r)" by simp
    from Cons.IH [OF this] obtain k where k: "k \<le> length xs" "mo = m + 1 + int k"
      "r = r0 - x - sum_list (take k xs)" "k < length xs \<longrightarrow> r < xs ! k"
      "0 \<le> r0 - x \<and> (\<forall>x \<in> set xs. 0 \<le> x) \<longrightarrow> 0 \<le> r" by auto
    with False show ?thesis by (intro exI [of _ "Suc k"]) auto
  qed
qed

lemma addMonths_sum:
  "1 \<le> m \<Longrightarrow> m \<le> mo \<Longrightarrow> mo \<le> int (length tbl) + 1 \<Longrightarrow>
     addMonths tbl mo m (Some a) = Some (a + sum_list (take (nat (mo - m)) (drop (nat (m - 1)) tbl)))"
proof (induction tbl mo m "Some a" arbitrary: a rule: addMonths.induct)
  case (1 tbl mo m)
  show ?case
  proof (cases "m < mo")
    case True
    then have idx: "js_index tbl (m - 1) = Some (tbl ! nat (m - 1))"
      using 1 by (simp add: js_index_def)
    have lt: "nat (m - 1) < length tbl" using True 1 by simp
    have "addMonths tbl mo m (Some a) = addMonths tbl mo (m + 1) (Some (a + tbl ! nat (m - 1)))"
      using True idx by (simp add: addMonths.simps [of tbl mo m])
    also have "\<dots> = Some (a + tbl ! nat (m - 1) + sum_list (take (nat (mo - (m + 1))) (drop (nat m) tbl)))"
      using "1.hyps" [OF True, of "a + tbl ! nat (m - 1)"] True idx 1(2,3,4) by simp
    also have "drop (nat (m - 1)) tbl = tbl ! nat (m - 1) # drop (nat m) tbl"
      using Cons_nth_drop_Suc [OF lt] 1(2) by (simp add: Suc_nat_eq_nat_zadd1)
    moreover have "nat (mo - m) = Suc (nat (mo - (m + 1)))" using True by simp
    ultimately show ?thesis by simp
  next
    case False
    with 1 have "mo = m" by simp
    then show ?thesis by (simp add: addMonths.simps [of tbl m m])
  qed
qed

lemma sum_list_daysInMonths: "sum_list (daysInMonths yr) = (if isLeapYear yr then 366 else 365)"
  by (simp add: daysInMonths_def)

lemma length_daysInMonths: "length (daysInMonths yr) = 12"
  by (simp add: daysInMonths_def)

lemma daysInMonths_nonneg: "x \<in> set (daysInMonths yr) \<Longrightarrow> 0 \<le> x"
  by (auto simp: daysInMonths_def split: if_splits)

text \<open>
  Claim C7. Round trip: for every day count \<open>days \<ge> 0\<close>, the (year, month, day) that
  \<^verbatim>\<open>daysSinceEpochToDate\<close> produces is mapped back to exactly \<open>days\<close> by
  \<^verbatim>\<open>dateToDatesSinceEpoch\<close> (which returns a number, not \<^verbatim>\<open>NaN\<close>).
\<close>

theorem roundtrip:
  assumes "0 \<le> days"
  shows "dateToDatesSinceEpoch (year (daysSinceEpochToDate days)) (month (daysSinceEpochToDate days))
           (day (daysSinceEpochToDate days)) = Some days"
proof -
  obtain y r1 where sy: "stripYears 1970 days = (y, r1)" by (cases "stripYears 1970 days")
  obtain mo r2 where sm: "stripMonths (daysInMonths y) 1 r1 = (mo, r2)"
    by (cases "stripMonths (daysInMonths y) 1 r1")
  from stripYears_inv [OF sy] assms
  have y: "1970 \<le> y" "0 \<le> r1" "r1 < (if isLeapYear y then 366 else 365)"
    "addYears y 1970 0 + r1 = days"
    by (simp_all add: addYears_done)
  from stripMonths_inv [OF sm] obtain k where k: "k \<le> 12" "mo = 1 + int k"
    "r2 = r1 - sum_list (take k (daysInMonths y))" "0 \<le> r2"
    using y(2) daysInMonths_nonneg by (auto simp: length_daysInMonths)
  have "k \<noteq> 12"
  proof
    assume "k = 12"
    then have "r2 = r1 - sum_list (daysInMonths y)" using k(3) by (simp add: length_daysInMonths)
    then show False using y(3) k(4) by (simp add: sum_list_daysInMonths split: if_splits)
  qed
  then have mo: "1 \<le> mo" "mo \<le> 12" using k(1,2) by simp_all
  have "addMonths (daysInMonths y) mo 1 (Some (addYears y 1970 0))
        = Some (addYears y 1970 0 + sum_list (take k (daysInMonths y)))"
    using addMonths_sum [of 1 mo "daysInMonths y" "addYears y 1970 0"] mo k(2)
    by (simp add: length_daysInMonths)
  then have "dateToDatesSinceEpoch y mo (r2 + 1) = Some days"
    using k(3) y(4) by (simp add: dateToDatesSinceEpoch_def)
  then show ?thesis by (simp add: daysSinceEpochToDate_def sy sm)
qed

text \<open>
  Claim C10. For every negative day count, \<^verbatim>\<open>daysSinceEpochToDate\<close> (a total function:
  its loops terminate) returns year 1970, month 1 and day \<open>days + 1\<close>, which is not
  positive, while the weekday is \<^verbatim>\<open>(((days + 4) % 7) + 7) % 7\<close>, a value in 0..6 equal
  to the mathematical \<open>(days + 4) mod 7\<close>.
\<close>

theorem daysSinceEpochToDate_negative:
  assumes "days < 0"
  shows "daysSinceEpochToDate days =
           \<lparr> year = 1970, month = 1, day = days + 1,
             weekday = js_rem (js_rem (days + 4) 7 + 7) 7 \<rparr>
         \<and> day (daysSinceEpochToDate days) \<le> 0
         \<and> weekday (daysSinceEpochToDate days) = (days + 4) mod 7
         \<and> 0 \<le> weekday (daysSinceEpochToDate days)
         \<and> weekday (daysSinceEpochToDate days) \<le> 6"
proof -
  have sy: "stripYears 1970 days = (1970, days)"
    using assms by (simp add: stripYears.simps [of 1970 days])
  have sm: "stripMonths (daysInMonths 1970) 1 days = (1, days)"
    using assms by (simp add: daysInMonths_def)
  have eq: "daysSinceEpochToDate days =
           \<lparr> year = 1970, month = 1, day = days + 1, weekday = weekdayOfDays days \<rparr>"
    by (simp add: daysSinceEpochToDate_def sy sm)
  have wd: "weekdayOfDays days = (days + 4) mod 7" by (rule weekdayOfDays_mod)
  have "0 \<le> (days + 4) mod 7" "(days + 4) mod 7 \<le> 6"
    using pos_mod_bound [of 7 "days + 4"] by simp_all
  then show ?thesis using assms eq wd by (simp add: weekdayOfDays_def)
qed

theorem daysSinceEpochToDate_negative_witness:
  "(- 1 :: int) < 0 \<and> daysSinceEpochToDate (- 1) = \<lparr> year = 1970, month = 1, day = 0, weekday = 3 \<rparr>"
  using daysSinceEpochToDate_negative [of "- 1"] by (simp add: js_rem_def)

theorem roundtrip_witness:
  "(0::int) \<le> 19737 \<and> daysSinceEpochToDate 19737 = \<lparr> year = 2024, month = 1, day = 15, weekday = 1 \<rparr>
    \<and> dateToDatesSinceEpoch 2024 1 15 = Some 19737"
proof -
  have d: "daysSinceEpochToDate 19737 = \<lparr> year = 2024, month = 1, day = 15, weekday = 1 \<rparr>"
    by code_simp
  show ?thesis using roundtrip [of 19737] by (simp add: d)
qed

section \<open>The weekday scans\<close>

lemma addMonths_done: "mo \<le> m \<Longrightarrow> addMonths tbl mo m days = days"
  by (simp add: addMonths.simps)

lemma dateToDatesSinceEpoch_first:
  assumes "mo \<le> 13"
  shows "\<exists>b. dateToDatesSinceEpoch yr mo 1 = Some b"
proof (cases "mo \<le> 1")
  case True
  then show ?thesis by (simp add: dateToDatesSinceEpoch_def addMonths_done)
next
  case False
  then show ?thesis
    using assms addMonths_sum [of 1 mo "daysInMonths yr" "addYears yr 1970 0"]
    by (simp add: dateToDatesSinceEpoch_def length_daysInMonths)
qed

lemma dateToDatesSinceEpoch_shift:
  "dateToDatesSinceEpoch yr mo 1 = Some b \<Longrightarrow> dateToDatesSinceEpoch yr mo dy = Some (b + dy - 1)"
  by (auto simp: dateToDatesSinceEpoch_def split: option.splits)

lemma match_iff:
  assumes "dateToDatesSinceEpoch yr mo 1 = Some b"
  shows "(case dateToDatesSinceEpoch yr mo dy of None \<Rightarrow> False
          | Some ds \<Rightarrow> weekdayOfDays ds = t) \<longleftrightarrow> (b + dy + 3) mod 7 = t"
  using dateToDatesSinceEpoch_shift [OF assms, of dy]
  by (simp add: weekdayOfDays_mod algebra_simps)

lemma mod7_match:
  assumes "0 \<le> t" "t \<le> 6"
  shows "(c + dy) mod 7 = t \<longleftrightarrow> (t - c - dy) mod 7 = (0::int)"
proof -
  have "(t - c - dy) mod 7 = 0 \<longleftrightarrow> 7 dvd (t - (c + dy))"
    by (simp add: mod_eq_0_iff_dvd algebra_simps)
  also have "\<dots> \<longleftrightarrow> t mod 7 = (c + dy) mod 7"
    by (simp add: mod_eq_dvd_iff)
  also have "t mod 7 = t" using assms by simp
  finally show ?thesis by auto
qed

lemma mod7_pred_zero: "x mod 7 = (0::int) \<Longrightarrow> (x - 1) mod 7 = 6"
  using mod_diff_left_eq [of x 7 1] by simp

lemma mod7_pred_pos:
  assumes "x mod 7 \<noteq> (0::int)"
  shows "(x - 1) mod 7 = x mod 7 - 1"
proof -
  have "0 \<le> x mod 7" "x mod 7 < 7" by simp_all
  with assms have "0 \<le> x mod 7 - 1" "x mod 7 - 1 < 7" by simp_all
  then have "(x mod 7 - 1) mod 7 = x mod 7 - 1" by simp
  then show ?thesis using mod_diff_left_eq [of x 7 1] by simp
qed

lemma match_iff_zero:
  assumes "dateToDatesSinceEpoch yr mo 1 = Some b" "0 \<le> t" "t \<le> 6"
  shows "(case dateToDatesSinceEpoch yr mo dy of None \<Rightarrow> False
          | Some ds \<Rightarrow> weekdayOfDays ds = t) \<longleftrightarrow> (t - (b + 3) - dy) mod 7 = 0"
proof -
  have "(b + dy + 3) mod 7 = (b + 3 + dy) mod 7" by (simp add: algebra_simps)
  then show ?thesis
    using match_iff [OF assms(1), where dy = dy and t = t]
      mod7_match [OF assms(2,3), where c = "b + 3" and dy = dy] by simp
qed

lemma nthScan_found:
  "dateToDatesSinceEpoch yr mo 1 = Some b \<Longrightarrow> 0 \<le> t \<Longrightarrow> t \<le> 6 \<Longrightarrow> count < occ \<Longrightarrow>
   dy + (t - (b + 3) - dy) mod 7 + 7 * (occ - count - 1) \<le> n \<Longrightarrow>
   nthScan yr mo t occ n dy count = Some (dy + (t - (b + 3) - dy) mod 7 + 7 * (occ - count - 1))"
proof (induction yr mo t occ n dy count rule: nthScan.induct)
  case (1 yr mo t occ n dy count)
  let ?k = "(t - (b + 3) - dy) mod 7"
  let ?match = "case dateToDatesSinceEpoch yr mo dy of None \<Rightarrow> False
                | Some ds \<Rightarrow> weekdayOfDays ds = t"
  have k: "0 \<le> ?k" by simp
  have le: "dy \<le> n"
  proof -
    define j where "j = ?k"
    have "0 \<le> j" "dy + j + 7 * (occ - count - 1) \<le> n" "count < occ"
      using "1.prems"(4,5) by (simp_all add: j_def)
    then show ?thesis by arith
  qed
  have m: "?match \<longleftrightarrow> ?k = 0"
    using match_iff_zero [OF "1.prems"(1,2,3)] .
  have shift: "t - (b + 3) - (dy + 1) = t - (b + 3) - dy - 1" by simp
  show ?case
  proof (cases "?k = 0")
    case True
    then have mt: ?match using m by simp
    show ?thesis
    proof (cases "count + 1 = occ")
      case True
      then show ?thesis
        using le mt \<open>?k = 0\<close> by (simp add: nthScan.simps [of yr mo t occ n dy count])
    next
      case False
      have k': "(t - (b + 3) - (dy + 1)) mod 7 = 6"
        using mod7_pred_zero [OF \<open>?k = 0\<close>] by (simp only: shift)
      have "nthScan yr mo t occ n (dy + 1) (count + 1)
            = Some (dy + 1 + (t - (b + 3) - (dy + 1)) mod 7 + 7 * (occ - (count + 1) - 1))"
        using "1.IH"(1) [OF le mt False "1.prems"(1,2,3)] "1.prems"(4,5) False \<open>?k = 0\<close> k'
        by simp
      then show ?thesis
        using le mt False \<open>?k = 0\<close> k'
        by (simp add: nthScan.simps [of yr mo t occ n dy count])
    qed
  next
    case False
    then have mt: "\<not> ?match" using m by simp
    have k': "(t - (b + 3) - (dy + 1)) mod 7 = ?k - 1"
      using mod7_pred_pos [OF False] by (simp only: shift)
    have "nthScan yr mo t occ n (dy + 1) count
          = Some (dy + 1 + (t - (b + 3) - (dy + 1)) mod 7 + 7 * (occ - count - 1))"
      using "1.IH"(2) [OF le mt "1.prems"(1,2,3,4)] "1.prems"(5) k' by simp
    then show ?thesis
      using le mt k' by (simp add: nthScan.simps [of yr mo t occ n dy count])
  qed
qed

lemma nthScan_missing:
  "dateToDatesSinceEpoch yr mo 1 = Some b \<Longrightarrow> 0 \<le> t \<Longrightarrow> t \<le> 6 \<Longrightarrow> count < occ \<Longrightarrow>
   n < dy + (t - (b + 3) - dy) mod 7 + 7 * (occ - count - 1) \<Longrightarrow>
   nthScan yr mo t occ n dy count = None"
proof (induction yr mo t occ n dy count rule: nthScan.induct)
  case (1 yr mo t occ n dy count)
  let ?k = "(t - (b + 3) - dy) mod 7"
  let ?match = "case dateToDatesSinceEpoch yr mo dy of None \<Rightarrow> False
                | Some ds \<Rightarrow> weekdayOfDays ds = t"
  have m: "?match \<longleftrightarrow> ?k = 0"
    using match_iff_zero [OF "1.prems"(1,2,3)] .
  have shift: "t - (b + 3) - (dy + 1) = t - (b + 3) - dy - 1" by simp
  show ?case
  proof (cases "dy \<le> n")
    case False
    then show ?thesis by (simp add: nthScan.simps [of yr mo t occ n dy count])
  next
    case le: True
    show ?thesis
    proof (cases "?k = 0")
      case True
      then have mt: ?match using m by simp
      have ne: "count + 1 \<noteq> occ" using "1.prems"(5) le True by auto
      have k': "(t - (b + 3) - (dy + 1)) mod 7 = 6"
        using mod7_pred_zero [OF True] by (simp only: shift)
      have "nthScan yr mo t occ n (dy + 1) (count + 1) = None"
        using "1.IH"(1) [OF le mt ne "1.prems"(1,2,3)] "1.prems"(4,5) ne True k' by simp
      then show ?thesis
        using le mt ne by (simp add: nthScan.simps [of yr mo t occ n dy count])
    next
      case False
      then have mt: "\<not> ?match" using m by simp
      have k': "(t - (b + 3) - (dy + 1)) mod 7 = ?k - 1"
        using mod7_pred_pos [OF False] by (simp only: shift)
      have "nthScan yr mo t occ n (dy + 1) count = None"
        using "1.IH"(2) [OF le mt "1.prems"(1,2,3,4)] "1.prems"(5) k' by simp
      then show ?thesis
        using le mt by (simp add: nthScan.simps [of yr mo t occ n dy count])
    qed
  qed
qed

lemma lastScan_found:
  "dateToDatesSinceEpoch yr mo 1 = Some b \<Longrightarrow> 0 \<le> t \<Longrightarrow> t \<le> 6 \<Longrightarrow>
   1 \<le> dy - (b + 3 + dy - t) mod 7 \<Longrightarrow>
   lastScan yr mo t dy = Some (dy - (b + 3 + dy - t) mod 7)"
proof (induction yr mo t dy rule: lastScan.induct)
  case (1 yr mo t dy)
  let ?k = "(b + 3 + dy - t) mod 7"
  let ?match = "case dateToDatesSinceEpoch yr mo dy of None \<Rightarrow> False
                | Some ds \<Rightarrow> weekdayOfDays ds = t"
  have k: "0 \<le> ?k" by simp
  have ge: "1 \<le> dy"
  proof -
    define j where "j = ?k"
    have "0 \<le> j" "1 \<le> dy - j" using "1.prems"(4) by (simp_all add: j_def)
    then show ?thesis by arith
  qed
  have "?k = 0 \<longleftrightarrow> 7 dvd (b + 3 + dy - t)" by (simp add: mod_eq_0_iff_dvd)
  also have "\<dots> \<longleftrightarrow> 7 dvd (t - (b + 3) - dy)"
    using dvd_minus_iff [of 7 "t - (b + 3) - dy"] by (simp add: algebra_simps)
  also have "\<dots> \<longleftrightarrow> (t - (b + 3) - dy) mod 7 = 0" by (simp add: mod_eq_0_iff_dvd)
  finally have m: "?match \<longleftrightarrow> ?k = 0"
    using match_iff_zero [OF "1.prems"(1,2,3), of dy] by simp
  show ?case
  proof (cases "?k = 0")
    case True
    then show ?thesis using m ge by (simp add: lastScan.simps [of yr mo t dy])
  next
    case False
    then have mt: "\<not> ?match" using m by simp
    have shift: "b + 3 + (dy - 1) - t = b + 3 + dy - t - 1" by simp
    have k': "(b + 3 + (dy - 1) - t) mod 7 = ?k - 1"
      using mod7_pred_pos [OF False] by (simp only: shift)
    have "lastScan yr mo t (dy - 1) = Some (dy - 1 - (b + 3 + (dy - 1) - t) mod 7)"
      using "1.IH" [OF ge mt "1.prems"(1,2,3)] "1.prems"(4) k' by simp
    then show ?thesis
      using ge mt k' by (simp add: lastScan.simps [of yr mo t dy])
  qed
qed

lemma weekday_daysSinceEpochToDate: "weekday (daysSinceEpochToDate ds) = weekdayOfDays ds"
  by (simp add: daysSinceEpochToDate_def split: prod.splits)

lemma weekdayOfDate_match:
  "weekdayOfDate yr mo k = Some t \<longleftrightarrow>
     (case dateToDatesSinceEpoch yr mo k of None \<Rightarrow> False | Some ds \<Rightarrow> weekdayOfDays ds = t)"
  by (simp add: weekdayOfDate_def weekday_daysSinceEpochToDate split: option.splits)

lemma nthScan_sound:
  "nthScan yr mo t occ n dy count = Some d \<Longrightarrow>
     dy \<le> d \<and> d \<le> n \<and> weekdayOfDate yr mo d = Some t \<and>
     count + int (length (filter (\<lambda>k. weekdayOfDate yr mo k = Some t) [dy..d])) = occ"
proof (induction yr mo t occ n dy count rule: nthScan.induct)
  case (1 yr mo t occ n dy count)
  let ?match = "case dateToDatesSinceEpoch yr mo dy of None \<Rightarrow> False
                | Some ds \<Rightarrow> weekdayOfDays ds = t"
  have le: "dy \<le> n"
    using "1.prems" by (simp add: nthScan.simps [of yr mo t occ n dy count] split: if_splits)
  show ?case
  proof (cases ?match)
    case mt: True
    then have wd: "weekdayOfDate yr mo dy = Some t" by (simp add: weekdayOfDate_match)
    show ?thesis
    proof (cases "count + 1 = occ")
      case True
      then have "d = dy"
        using "1.prems" le mt by (simp add: nthScan.simps [of yr mo t occ n dy count])
      then show ?thesis using le wd True by simp
    next
      case False
      then have "nthScan yr mo t occ n (dy + 1) (count + 1) = Some d"
        using "1.prems" le mt by (simp add: nthScan.simps [of yr mo t occ n dy count])
      from "1.IH"(1) [OF le mt False this]
      have ih: "dy + 1 \<le> d" "d \<le> n" "weekdayOfDate yr mo d = Some t"
        "count + 1 + int (length (filter (\<lambda>k. weekdayOfDate yr mo k = Some t) [dy + 1..d])) = occ"
        by simp_all
      have "[dy..d] = dy # [dy + 1..d]" using ih(1) by (simp add: upto_rec1)
      then show ?thesis using ih wd by simp
    qed
  next
    case mt: False
    then have wd: "weekdayOfDate yr mo dy \<noteq> Some t" by (simp add: weekdayOfDate_match)
    have "nthScan yr mo t occ n (dy + 1) count = Some d"
      using "1.prems" le mt by (simp add: nthScan.simps [of yr mo t occ n dy count])
    from "1.IH"(2) [OF le mt this]
    have ih: "dy + 1 \<le> d" "d \<le> n" "weekdayOfDate yr mo d = Some t"
      "count + int (length (filter (\<lambda>k. weekdayOfDate yr mo k = Some t) [dy + 1..d])) = occ"
      by simp_all
    have "[dy..d] = dy # [dy + 1..d]" using ih(1) by (simp add: upto_rec1)
    then show ?thesis using ih wd by simp
  qed
qed

lemma lastScan_sound:
  "lastScan yr mo t dy = Some d \<Longrightarrow>
     1 \<le> d \<and> d \<le> dy \<and> weekdayOfDate yr mo d = Some t \<and>
     list_all (\<lambda>k. weekdayOfDate yr mo k \<noteq> Some t) [d + 1..dy]"
proof (induction yr mo t dy rule: lastScan.induct)
  case (1 yr mo t dy)
  let ?match = "case dateToDatesSinceEpoch yr mo dy of None \<Rightarrow> False
                | Some ds \<Rightarrow> weekdayOfDays ds = t"
  have ge: "1 \<le> dy"
    using "1.prems" by (simp add: lastScan.simps [of yr mo t dy] split: if_splits)
  show ?case
  proof (cases ?match)
    case True
    then have "d = dy" using "1.prems" ge by (simp add: lastScan.simps [of yr mo t dy])
    then show ?thesis using ge True by (simp add: weekdayOfDate_match)
  next
    case mt: False
    then have wd: "weekdayOfDate yr mo dy \<noteq> Some t" by (simp add: weekdayOfDate_match)
    have "lastScan yr mo t (dy - 1) = Some d"
      using "1.prems" ge mt by (simp add: lastScan.simps [of yr mo t dy])
    from "1.IH" [OF ge mt this]
    have ih: "1 \<le> d" "d \<le> dy - 1" "weekdayOfDate yr mo d = Some t"
      "list_all (\<lambda>k. weekdayOfDate yr mo k \<noteq> Some t) [d + 1..dy - 1]"
      by simp_all
    have "[d + 1..dy] = [d + 1..dy - 1] @ [dy]" using ih(2) by (simp add: upto_rec2)
    then show ?thesis using ih wd by simp
  qed
qed

lemma getDaysInMonth_ge: "28 \<le> getDaysInMonth yr mo"
  by (simp add: getDaysInMonth_def)

lemma nthScan_closed:
  assumes "dateToDatesSinceEpoch yr mo 1 = Some b" "0 \<le> t" "t \<le> 6" "1 \<le> occ"
  shows "nthScan yr mo t occ n 1 0 =
           (if 1 + (t - (b + 4)) mod 7 + 7 * (occ - 1) \<le> n
            then Some (1 + (t - (b + 4)) mod 7 + 7 * (occ - 1)) else None)"
proof -
  have e: "t - (b + 3) - 1 = t - (b + 4)" by simp
  show ?thesis
    using nthScan_found [OF assms(1,2,3), of 0 occ 1 n] nthScan_missing [OF assms(1,2,3), of 0 occ n 1]
      assms(4)
    by (simp add: e)
qed

lemma nthScan_complete:
  "dy \<le> d \<Longrightarrow> d \<le> n \<Longrightarrow> weekdayOfDate yr mo d = Some t \<Longrightarrow>
   count + int (length (filter (\<lambda>k. weekdayOfDate yr mo k = Some t) [dy..d])) = occ \<Longrightarrow>
   nthScan yr mo t occ n dy count = Some d"
proof (induction yr mo t occ n dy count rule: nthScan.induct)
  case (1 yr mo t occ n dy count)
  let ?match = "case dateToDatesSinceEpoch yr mo dy of None \<Rightarrow> False
                | Some ds \<Rightarrow> weekdayOfDays ds = t"
  let ?P = "\<lambda>k. weekdayOfDate yr mo k = Some t"
  have le: "dy \<le> n" using "1.prems"(1,2) by simp
  have split: "[dy..d] = dy # [dy + 1..d]" using "1.prems"(1) by (simp add: upto_rec1)
  have last_in: "dy < d \<Longrightarrow> 0 < length (filter ?P [dy + 1..d])"
  proof -
    assume "dy < d"
    then have "d \<in> set (filter ?P [dy + 1..d])" using "1.prems"(3) by simp
    then show ?thesis by (simp only: length_pos_if_in_set)
  qed
  show ?case
  proof (cases ?match)
    case mt: True
    then have wd: "?P dy" by (simp add: weekdayOfDate_match)
    show ?thesis
    proof (cases "count + 1 = occ")
      case True
      have "count + (1 + int (length (filter ?P [dy + 1..d]))) = occ"
        using "1.prems"(4) wd by (simp add: split)
      with True have "int (length (filter ?P [dy + 1..d])) = 0" by arith
      then have "\<not> 0 < length (filter ?P [dy + 1..d])" by simp
      then have "d = dy" using last_in "1.prems"(1) by force
      then show ?thesis
        using le mt True by (simp add: nthScan.simps [of yr mo t occ n dy count])
    next
      case False
      have "d \<noteq> dy" using "1.prems"(4) False wd by auto
      then have lt: "dy + 1 \<le> d" using "1.prems"(1) by simp
      have "count + 1 + int (length (filter ?P [dy + 1..d])) = occ"
        using "1.prems"(4) wd by (simp add: split)
      from "1.IH"(1) [OF le mt False lt "1.prems"(2,3) this]
      show ?thesis
        using le mt False by (simp add: nthScan.simps [of yr mo t occ n dy count])
    qed
  next
    case mt: False
    then have wd: "\<not> ?P dy" by (simp add: weekdayOfDate_match)
    have "d \<noteq> dy" using "1.prems"(3) wd by auto
    then have lt: "dy + 1 \<le> d" using "1.prems"(1) by simp
    have "count + int (length (filter ?P [dy + 1..d])) = occ"
      using "1.prems"(4) wd by (simp add: split)
    from "1.IH"(2) [OF le mt lt "1.prems"(2,3) this]
    show ?thesis
      using le mt by (simp add: nthScan.simps [of yr mo t occ n dy count])
  qed
qed

lemma nthScan_iff:
  "nthScan yr mo t occ (getDaysInMonth yr mo) 1 0 = Some d \<longleftrightarrow> isNthWeekdayOfMonth yr mo t occ d"
  using nthScan_sound [of yr mo t occ "getDaysInMonth yr mo" 1 0 d]
    nthScan_complete [of 1 d "getDaysInMonth yr mo" yr mo t 0 occ]
  by (auto simp: isNthWeekdayOfMonth_def)

lemma getNth_found:
  assumes "mo \<le> 13" "0 \<le> t" "t \<le> 6" "1 \<le> occ" "occ \<le> 4"
  shows "nthScan yr mo t occ (getDaysInMonth yr mo) 1 0 = Some (getNthWeekdayOfMonth yr mo t occ)
         \<and> isNthWeekdayOfMonth yr mo t occ (getNthWeekdayOfMonth yr mo t occ)
         \<and> 7 * occ - 6 \<le> getNthWeekdayOfMonth yr mo t occ
         \<and> getNthWeekdayOfMonth yr mo t occ \<le> 7 * occ"
proof -
  obtain b where b: "dateToDatesSinceEpoch yr mo 1 = Some b"
    using dateToDatesSinceEpoch_first [OF assms(1)] by blast
  define k where "k = (t - (b + 4)) mod 7"
  have k: "0 \<le> k" "k \<le> 6" by (simp_all add: k_def)
  have "1 + k + 7 * (occ - 1) \<le> 28" using k assms(5) by arith
  then have "1 + k + 7 * (occ - 1) \<le> getDaysInMonth yr mo"
    using getDaysInMonth_ge [of yr mo] by arith
  then have s: "nthScan yr mo t occ (getDaysInMonth yr mo) 1 0 = Some (1 + k + 7 * (occ - 1))"
    using nthScan_closed [OF b assms(2,3,4), of "getDaysInMonth yr mo"] by (simp add: k_def)
  then have g: "getNthWeekdayOfMonth yr mo t occ = 1 + k + 7 * (occ - 1)"
    by (simp add: getNthWeekdayOfMonth_def)
  show ?thesis using s g k nthScan_iff [of yr mo t occ "1 + k + 7 * (occ - 1)"] by simp
qed

lemma getLast_found:
  assumes "mo \<le> 13" "0 \<le> t" "t \<le> 6"
  shows "lastScan yr mo t (getDaysInMonth yr mo) = Some (getLastWeekdayOfMonth yr mo t)
         \<and> isLastWeekdayOfMonth yr mo t (getLastWeekdayOfMonth yr mo t)"
proof -
  obtain b where b: "dateToDatesSinceEpoch yr mo 1 = Some b"
    using dateToDatesSinceEpoch_first [OF assms(1)] by blast
  define n where "n = getDaysInMonth yr mo"
  define k where "k = (b + 3 + n - t) mod 7"
  have k: "0 \<le> k" "k \<le> 6" by (simp_all add: k_def)
  have "28 \<le> n" by (simp add: n_def getDaysInMonth_ge)
  then have "1 \<le> n - k" using k by arith
  then have s: "lastScan yr mo t n = Some (n - k)"
    using lastScan_found [OF b assms(2,3), of n] by (simp add: k_def)
  then have g: "getLastWeekdayOfMonth yr mo t = n - k"
    by (simp add: getLastWeekdayOfMonth_def n_def)
  show ?thesis
    using s g lastScan_sound [OF s] by (simp add: isLastWeekdayOfMonth_def n_def)
qed

text \<open>
  Claim C6, as amended. For every year (so for every year from 1970 on), every month 1..12
  and every target weekday 0..6: for each occurrence 1..4 the scan of
  \<^verbatim>\<open>getNthWeekdayOfMonth\<close> returns from inside the loop, at the day of the month that is
  that occurrence of the weekday (its match count equals the occurrence), so the fallback
  \<^verbatim>\<open>return 1\<close> is not reached; for occurrence 5 the scan leaves the loop and reaches
  the fallback exactly when the month has no fifth such weekday; and the backward scan of
  \<^verbatim>\<open>getLastWeekdayOfMonth\<close> always returns from inside the loop, at the last such
  weekday of the month.
\<close>

theorem weekday_scans_find:
  assumes "1 \<le> mo" "mo \<le> 12" "0 \<le> t" "t \<le> 6"
  shows "(\<forall>occ \<in> {1..4}. \<exists>d. nthScan yr mo t occ (getDaysInMonth yr mo) 1 0 = Some d
              \<and> getNthWeekdayOfMonth yr mo t occ = d \<and> isNthWeekdayOfMonth yr mo t occ d)
       \<and> (nthScan yr mo t 5 (getDaysInMonth yr mo) 1 0 = None
            \<longleftrightarrow> \<not> (\<exists>d. isNthWeekdayOfMonth yr mo t 5 d))
       \<and> (\<exists>d. lastScan yr mo t (getDaysInMonth yr mo) = Some d
              \<and> getLastWeekdayOfMonth yr mo t = d \<and> isLastWeekdayOfMonth yr mo t d)"
proof (intro conjI ballI)
  fix occ :: int assume "occ \<in> {1..4}"
  then show "\<exists>d. nthScan yr mo t occ (getDaysInMonth yr mo) 1 0 = Some d
              \<and> getNthWeekdayOfMonth yr mo t occ = d \<and> isNthWeekdayOfMonth yr mo t occ d"
    using getNth_found [of mo t occ yr] assms by simp
next
  show "nthScan yr mo t 5 (getDaysInMonth yr mo) 1 0 = None
            \<longleftrightarrow> \<not> (\<exists>d. isNthWeekdayOfMonth yr mo t 5 d)"
    using nthScan_iff [of yr mo t 5] by (cases "nthScan yr mo t 5 (getDaysInMonth yr mo) 1 0") auto
next
  show "\<exists>d. lastScan yr mo t (getDaysInMonth yr mo) = Some d
              \<and> getLastWeekdayOfMonth yr mo t = d \<and> isLastWeekdayOfMonth yr mo t d"
    using getLast_found [of mo t yr] assms by simp
qed

theorem weekday_scans_find_witness:
  "nthScan 2024 5 1 4 (getDaysInMonth 2024 5) 1 0 = Some 27
   \<and> getNthWeekdayOfMonth 2024 5 1 4 = 27
   \<and> getLastWeekdayOfMonth 2024 5 1 = 27
   \<and> nthScan 2024 5 1 5 (getDaysInMonth 2024 5) 1 0 = None"
proof -
  have 1: "nthScan 2024 5 1 4 (getDaysInMonth 2024 5) 1 0 = Some 27" by code_simp
  have 2: "nthScan 2024 5 1 5 (getDaysInMonth 2024 5) 1 0 = None" by code_simp
  have 3: "lastScan 2024 5 1 (getDaysInMonth 2024 5) = Some 27" by code_simp
  show ?thesis using weekday_scans_find [of 5 1 2024] 1 2 3 by auto
qed

text \<open>
  Claim C6 as stated, with occurrence 5 included, fails: February 2023 has 28 days and four
  Mondays, so the scan for the fifth Monday ends without a match and the function returns
  the fallback 1, although 1 February 2023 is a Wednesday.
\<close>

theorem fifth_weekday_fallback:
  "nthScan 2023 2 1 5 (getDaysInMonth 2023 2) 1 0 = None
   \<and> getNthWeekdayOfMonth 2023 2 1 5 = 1 \<and> weekdayOfDate 2023 2 1 = Some 3"
  by code_simp



section \<open>Fixed holidays on a weekend\<close>

lemma weekdayOfDate_shift:
  assumes "weekdayOfDate yr mo d = Some w"
  shows "weekdayOfDate yr mo (d + j) = Some ((w + j) mod 7)"
proof -
  obtain ds where ds: "dateToDatesSinceEpoch yr mo d = Some ds" "weekdayOfDays ds = w"
    using assms by (auto simp: weekdayOfDate_def weekday_daysSinceEpochToDate)
  have "dateToDatesSinceEpoch yr mo (d + j) = Some (ds + j)"
    using ds(1) by (auto simp: dateToDatesSinceEpoch_def split: option.splits)
  moreover have "weekdayOfDays (ds + j) = (w + j) mod 7"
  proof -
    have "(ds + j + 4) mod 7 = ((ds + 4) mod 7 + j) mod 7"
      using mod_add_left_eq [of "ds + 4" 7 j] by (simp add: algebra_simps)
    then show ?thesis using ds(2) by (simp add: weekdayOfDays_mod)
  qed
  ultimately show ?thesis by (simp add: weekdayOfDate_def weekday_daysSinceEpochToDate)
qed

lemma thirdMonday_january: "15 \<le> getNthWeekdayOfMonth yr 1 1 3"
  using getNth_found [of 1 1 3 yr] by simp

lemma fixedHolidays_cases [consumes 1, case_names NewYear Juneteenth Independence Christmas]:
  assumes "(mo, dy, name) \<in> set fixedHolidays"
  obtains "mo = 1" "dy = 1" "name = ''New Year's Day''"
  | "mo = 6" "dy = 19" "name = ''Juneteenth''"
  | "mo = 7" "dy = 4" "name = ''Independence Day''"
  | "mo = 12" "dy = 25" "name = ''Christmas Day''"
proof -
  from assms have "(mo = 1 \<and> dy = 1 \<and> name = ''New Year's Day'')
      \<or> (mo = 6 \<and> dy = 19 \<and> name = ''Juneteenth'')
      \<or> (mo = 7 \<and> dy = 4 \<and> name = ''Independence Day'')
      \<or> (mo = 12 \<and> dy = 25 \<and> name = ''Christmas Day'')"
    by (simp add: fixedHolidays_def)
  then show thesis
    by (elim disjE conjE) (erule (2) that)+
qed

lemma checkNYSEHoliday_on_weekend:
  assumes "(mo, dy, name) \<in> set fixedHolidays" "wd = 0 \<or> wd = 6"
  shows "checkNYSEHoliday yr mo dy wd = None"
proof -
  have g: "getNthWeekdayOfMonth yr 1 1 3 \<noteq> 1" using thirdMonday_january [of yr] by simp
  from assms(1) show ?thesis
  proof (cases rule: fixedHolidays_cases)
    case NewYear
    then show ?thesis using g assms(2) by (simp add: checkNYSEHoliday_def)
  next
    case Juneteenth
    then show ?thesis using assms(2) by (simp add: checkNYSEHoliday_def)
  next
    case Independence
    then show ?thesis using assms(2) by (simp add: checkNYSEHoliday_def)
  next
    case Christmas
    then show ?thesis using assms(2) by (simp add: checkNYSEHoliday_def)
  qed
qed

lemma checkNYSEHoliday_monday_observed:
  assumes "(mo, dy, name) \<in> set fixedHolidays" "j = 1 \<or> j = 2"
  shows "checkNYSEHoliday yr mo (dy + j) 1 = Some (name @ '' (Observed)'')"
  using assms(1)
proof (cases rule: fixedHolidays_cases)
  case NewYear
  then show ?thesis using assms(2) by (auto simp: checkNYSEHoliday_def)
next
  case Juneteenth
  then show ?thesis using assms(2) by (auto simp: checkNYSEHoliday_def)
next
  case Independence
  then show ?thesis using assms(2) by (auto simp: checkNYSEHoliday_def)
next
  case Christmas
  then show ?thesis using assms(2) by (auto simp: checkNYSEHoliday_def)
qed

lemma checkNYSEHoliday_tuesday_after_sunday:
  assumes "(mo, dy, name) \<in> set fixedHolidays"
  shows "checkNYSEHoliday yr mo (dy + 2) 2 = None"
proof -
  have g: "getNthWeekdayOfMonth yr 1 1 3 \<noteq> 3" using thirdMonday_january [of yr] by simp
  from assms show ?thesis
  proof (cases rule: fixedHolidays_cases)
    case NewYear
    then show ?thesis using g by (simp add: checkNYSEHoliday_def)
  next
    case Juneteenth
    then show ?thesis by (simp add: checkNYSEHoliday_def)
  next
    case Independence
    then show ?thesis by (simp add: checkNYSEHoliday_def)
  next
    case Christmas
    then show ?thesis by (simp add: checkNYSEHoliday_def)
  qed
qed

lemma checkNYSEHoliday_friday_before:
  assumes "(mo, dy, name) \<in> set fixedHolidays"
  shows "checkNYSEHoliday (if mo = 1 then yr - 1 else yr) (if mo = 1 then 12 else mo)
           (if mo = 1 then 31 else dy - 1) 5 = None"
  using assms
proof (cases rule: fixedHolidays_cases)
  case NewYear
  then show ?thesis by (simp add: checkNYSEHoliday_def)
next
  case Juneteenth
  then show ?thesis by (simp add: checkNYSEHoliday_def)
next
  case Independence
  then show ?thesis by (simp add: checkNYSEHoliday_def)
next
  case Christmas
  then show ?thesis by (simp add: checkNYSEHoliday_def)
qed

text \<open>
  Claim C4, as amended. When one of the four fixed holidays (New Year's Day, Juneteenth,
  Independence Day, Christmas Day) falls on a Saturday, \<^verbatim>\<open>checkNYSEHoliday\<close> returns no
  name for that Saturday date and no name for the Friday before it, but an observed shift
  is applied: the Monday after it (holiday date + 2) gets the name
  "<Holiday> (Observed)".
\<close>

theorem saturday_holiday_observed_on_monday:
  assumes "(mo, dy, name) \<in> set fixedHolidays" "weekdayOfDate yr mo dy = Some 6"
  shows "checkNYSEHoliday yr mo dy 6 = None
         \<and> checkNYSEHoliday (if mo = 1 then yr - 1 else yr) (if mo = 1 then 12 else mo)
              (if mo = 1 then 31 else dy - 1) 5 = None
         \<and> weekdayOfDate yr mo (dy + 2) = Some 1
         \<and> checkNYSEHoliday yr mo (dy + 2) 1 = Some (name @ '' (Observed)'')"
  using checkNYSEHoliday_on_weekend [OF assms(1), of 6 yr]
    checkNYSEHoliday_friday_before [OF assms(1), of yr]
    weekdayOfDate_shift [OF assms(2), of 2]
    checkNYSEHoliday_monday_observed [OF assms(1), of 2 yr]
  by simp

theorem saturday_holiday_observed_on_monday_witness:
  "weekdayOfDate 2022 1 1 = Some 6 \<and> checkNYSEHoliday 2022 1 1 6 = None
   \<and> checkNYSEHoliday 2021 12 31 5 = None
   \<and> weekdayOfDate 2022 1 3 = Some 1
   \<and> checkNYSEHoliday 2022 1 3 1 = Some ''New Year's Day (Observed)''"
proof -
  have m: "(1, 1, ''New Year's Day'') \<in> set fixedHolidays" by (simp add: fixedHolidays_def)
  have w: "weekdayOfDate 2022 1 1 = Some 6" by code_simp
  show ?thesis using saturday_holiday_observed_on_monday [OF m w] w by simp
qed

text \<open>
  Claim C4 as stated fails in January 2022: 1 January 2022 is a Saturday, and for Monday
  3 January 2022 \<^verbatim>\<open>checkNYSEHoliday\<close> returns "New Year's Day (Observed)".
\<close>

theorem january_2022_observed:
  "weekdayOfDate 2022 1 1 = Some 6 \<and> weekdayOfDate 2022 1 3 = Some 1
   \<and> checkNYSEHoliday 2022 1 3 1 = Some ''New Year's Day (Observed)''"
proof -
  have "weekdayOfDate 2022 1 1 = Some 6" "weekdayOfDate 2022 1 3 = Some 1" by code_simp+
  then show ?thesis by (simp add: checkNYSEHoliday_def)
qed

text \<open>
  Claim C5, as amended. When one of the four fixed holidays falls on a Sunday, the following
  Monday, which is the holiday date + 1, is the day for which \<^verbatim>\<open>checkNYSEHoliday\<close>
  returns "<Holiday> (Observed)"; the holiday date + 2 is then a Tuesday and gets no name.
  1 January 2023 is a Sunday and 2 January 2023 returns "New Year's Day (Observed)";
  4 July 2021 is a Sunday and 5 July 2021 returns "Independence Day (Observed)".
\<close>

theorem sunday_holiday_observed_on_monday:
  assumes "(mo, dy, name) \<in> set fixedHolidays" "weekdayOfDate yr mo dy = Some 0"
  shows "checkNYSEHoliday yr mo dy 0 = None
         \<and> weekdayOfDate yr mo (dy + 1) = Some 1
         \<and> checkNYSEHoliday yr mo (dy + 1) 1 = Some (name @ '' (Observed)'')
         \<and> weekdayOfDate yr mo (dy + 2) = Some 2
         \<and> checkNYSEHoliday yr mo (dy + 2) 2 = None
         \<and> weekdayOfDate 2023 1 1 = Some 0
         \<and> checkNYSEHoliday 2023 1 2 1 = Some ''New Year's Day (Observed)''
         \<and> weekdayOfDate 2021 7 4 = Some 0
         \<and> checkNYSEHoliday 2021 7 5 1 = Some ''Independence Day (Observed)''"
proof -
  have ex: "weekdayOfDate 2023 1 1 = Some 0" "weekdayOfDate 2021 7 4 = Some 0" by code_simp+
  have ex': "checkNYSEHoliday 2023 1 2 1 = Some ''New Year's Day (Observed)''"
    "checkNYSEHoliday 2021 7 5 1 = Some ''Independence Day (Observed)''"
    by (simp_all add: checkNYSEHoliday_def)
  show ?thesis
    using checkNYSEHoliday_on_weekend [OF assms(1), of 0 yr]
      weekdayOfDate_shift [OF assms(2), of 1] weekdayOfDate_shift [OF assms(2), of 2]
      checkNYSEHoliday_monday_observed [OF assms(1), of 1 yr]
      checkNYSEHoliday_tuesday_after_sunday [OF assms(1), of yr] ex ex'
    by simp
qed

theorem sunday_holiday_observed_on_monday_witness:
  "weekdayOfDate 2021 7 4 = Some 0 \<and> weekdayOfDate 2021 7 5 = Some 1
   \<and> checkNYSEHoliday 2021 7 5 1 = Some ''Independence Day (Observed)''
   \<and> checkNYSEHoliday 2021 7 6 2 = None"
proof -
  have m: "(7, 4, ''Independence Day'') \<in> set fixedHolidays" by (simp add: fixedHolidays_def)
  have w: "weekdayOfDate 2021 7 4 = Some 0" by code_simp
  show ?thesis using sunday_holiday_observed_on_monday [OF m w] w by simp
qed

text \<open>
  Claim C5 as stated names the holiday date + 2: 1 January 2023 is a Sunday, 3 January 2023
  is a Tuesday, and \<^verbatim>\<open>checkNYSEHoliday\<close> returns no name for it.
\<close>

theorem january_3_2023_not_observed:
  "weekdayOfDate 2023 1 1 = Some 0 \<and> weekdayOfDate 2023 1 3 = Some 2
   \<and> checkNYSEHoliday 2023 1 3 2 = None"
  by code_simp

section \<open>The market state\<close>

lemma checkNYSEHoliday_nonempty: "checkNYSEHoliday yr mo dy wd \<noteq> Some []"
  by (simp add: checkNYSEHoliday_def)

text \<open>
  Claim C9. For every Eastern instant whose weekday is Monday to Friday and whose date is
  not a holiday, the evaluator answers OPEN (with \<^verbatim>\<open>isOpen\<close> true) exactly when
  \<open>570 \<le> hour * 60 + minute < 960\<close>; below 570 it answers AFTER_HOURS (the
  specification's OutsideHours) with the reason tag Pre-Market, and from 960 on AFTER_HOURS
  with the reason tag After-Market; the code appends the fixed text
  " (outside 9:30 AM - 4:00 PM ET)" to the tag.
\<close>

theorem trading_hours_window:
  assumes "1 \<le> weekday et" "weekday et \<le> 5"
    and "checkNYSEHoliday (year et) (month et) (day et) (weekday et) = None"
  shows "(isOpen (marketStateOf et) \<longleftrightarrow>
            570 \<le> hour et * 60 + minute et \<and> hour et * 60 + minute et < 960)
       \<and> (status (marketStateOf et) = ''OPEN'' \<longleftrightarrow>
            570 \<le> hour et * 60 + minute et \<and> hour et * 60 + minute et < 960)
       \<and> (hour et * 60 + minute et < 570 \<longrightarrow>
            status (marketStateOf et) = ''AFTER_HOURS'' \<and>
            reason (marketStateOf et) = ''Pre-Market'' @ '' (outside 9:30 AM - 4:00 PM ET)'')
       \<and> (960 \<le> hour et * 60 + minute et \<longrightarrow>
            status (marketStateOf et) = ''AFTER_HOURS'' \<and>
            reason (marketStateOf et) = ''After-Market'' @ '' (outside 9:30 AM - 4:00 PM ET)'')"
  using assms by (simp add: marketStateOf_def Let_def)

theorem trading_hours_window_witness:
  "reason (marketStateOf \<lparr> year = 2024, month = 6, day = 10, weekday = 1,
       hour = 9, minute = 29, second = 59, isDST = True \<rparr>)
     = ''Pre-Market (outside 9:30 AM - 4:00 PM ET)''
   \<and> isOpen (marketStateOf \<lparr> year = 2024, month = 6, day = 10, weekday = 1,
       hour = 9, minute = 30, second = 0, isDST = True \<rparr>)
   \<and> isOpen (marketStateOf \<lparr> year = 2024, month = 6, day = 10, weekday = 1,
       hour = 15, minute = 59, second = 59, isDST = True \<rparr>)
   \<and> reason (marketStateOf \<lparr> year = 2024, month = 6, day = 10, weekday = 1,
       hour = 16, minute = 0, second = 0, isDST = True \<rparr>)
     = ''After-Market (outside 9:30 AM - 4:00 PM ET)''"
proof -
  have h: "checkNYSEHoliday 2024 6 10 1 = None" by (simp add: checkNYSEHoliday_def)
  show ?thesis
    using trading_hours_window [of "\<lparr> year = 2024, month = 6, day = 10, weekday = 1,
        hour = 9, minute = 29, second = 59, isDST = True \<rparr>"]
      trading_hours_window [of "\<lparr> year = 2024, month = 6, day = 10, weekday = 1,
        hour = 9, minute = 30, second = 0, isDST = True \<rparr>"]
      trading_hours_window [of "\<lparr> year = 2024, month = 6, day = 10, weekday = 1,
        hour = 15, minute = 59, second = 59, isDST = True \<rparr>"]
      trading_hours_window [of "\<lparr> year = 2024, month = 6, day = 10, weekday = 1,
        hour = 16, minute = 0, second = 0, isDST = True \<rparr>"] h
    by simp
qed

text \<open>
  Claim C1 fails: at 2024-01-15 15:00:00 UTC (Martin Luther King Jr. Day, 10:00 Eastern)
  the full pipeline answers HOLIDAY and the simplified pipeline answers OPEN.
\<close>

theorem pipelines_differ:
  "status (fst (getCurrentNYSEMarketState \<lparr> clock = fixedClock 1705330800000, reads = 0 \<rparr>))
     = ''HOLIDAY''
   \<and> status (fst (getCurrentNYSEMarketStateSimple \<lparr> clock = fixedClock 1705330800000, reads = 0 \<rparr>))
     = ''OPEN''"
  by code_simp

text \<open>
  Claim C1, as amended. The two pipelines apply the same decision rule (weekend, then
  holiday, then the window \<open>570 \<le> minutes < 960\<close>) to the Eastern instants of their own
  conversions. For a clock reading at which the two conversions give the same weekday, hour
  and minute and the two holiday checks agree, they produce the same classification.
\<close>

theorem pipelines_agree_on_equal_instants:
  assumes "weekday (convertUTCToEastern (clock w (reads w)))
             = weekday (convertUTCToEasternSimple (clock w (reads w)))"
    and "hour (convertUTCToEastern (clock w (reads w)))
             = hour (convertUTCToEasternSimple (clock w (reads w)))"
    and "minute (convertUTCToEastern (clock w (reads w)))
             = minute (convertUTCToEasternSimple (clock w (reads w)))"
    and "checkNYSEHoliday (year (convertUTCToEastern (clock w (reads w))))
           (month (convertUTCToEastern (clock w (reads w))))
           (day (convertUTCToEastern (clock w (reads w))))
           (weekday (convertUTCToEastern (clock w (reads w)))) \<noteq> None
         \<longleftrightarrow> isNYSEHolidaySimple (year (convertUTCToEasternSimple (clock w (reads w))))
           (month (convertUTCToEasternSimple (clock w (reads w))))
           (day (convertUTCToEasternSimple (clock w (reads w))))"
  shows "status (fst (getCurrentNYSEMarketState w)) = status (fst (getCurrentNYSEMarketStateSimple w))
       \<and> isOpen (fst (getCurrentNYSEMarketState w)) = isOpen (fst (getCurrentNYSEMarketStateSimple w))"
proof -
  define e where "e = convertUTCToEastern (clock w (reads w))"
  define s where "s = convertUTCToEasternSimple (clock w (reads w))"
  have a: "weekday e = weekday s" "hour e = hour s" "minute e = minute s"
    "checkNYSEHoliday (year e) (month e) (day e) (weekday e) \<noteq> None
       \<longleftrightarrow> isNYSEHolidaySimple (year s) (month s) (day s)"
    using assms by (simp_all add: e_def s_def)
  have "status (marketStateOf e) = status (marketStateOfSimple s)
        \<and> isOpen (marketStateOf e) = isOpen (marketStateOfSimple s)"
  proof (cases "checkNYSEHoliday (year e) (month e) (day e) (weekday e)")
    case None
    then show ?thesis using a by (simp add: marketStateOf_def marketStateOfSimple_def Let_def)
  next
    case (Some n)
    then have "n \<noteq> []" using checkNYSEHoliday_nonempty [of "year e" "month e" "day e" "weekday e"]
      by auto
    then show ?thesis
      using a Some by (simp add: marketStateOf_def marketStateOfSimple_def Let_def)
  qed
  then show ?thesis
    by (simp add: getCurrentNYSEMarketState_def getCurrentNYSEMarketStateSimple_def newDate_def
        e_def s_def)
qed

theorem pipelines_agree_on_equal_instants_witness:
  "status (fst (getCurrentNYSEMarketState \<lparr> clock = fixedClock 1718028000000, reads = 0 \<rparr>))
     = ''OPEN''
   \<and> status (fst (getCurrentNYSEMarketStateSimple \<lparr> clock = fixedClock 1718028000000, reads = 0 \<rparr>))
     = ''OPEN''"
proof -
  have e: "convertUTCToEastern 1718028000000 = \<lparr> year = 2024, month = 6, day = 10, weekday = 1,
       hour = 10, minute = 0, second = 0, isDST = True \<rparr>" by code_simp
  have s: "convertUTCToEasternSimple 1718028000000 = \<lparr> year = 2024, month = 6, day = 24, weekday = 1,
       hour = 10, minute = 0, second = 0, isDST = True \<rparr>" by code_simp
  have h: "checkNYSEHoliday 2024 6 10 1 = None" by (simp add: checkNYSEHoliday_def)
  have o: "status (fst (getCurrentNYSEMarketStateSimple
             \<lparr> clock = fixedClock 1718028000000, reads = 0 \<rparr>)) = ''OPEN''"
    by (simp add: getCurrentNYSEMarketStateSimple_def newDate_def fixedClock_def s
        marketStateOfSimple_def isNYSEHolidaySimple_def)
  show ?thesis
    using pipelines_agree_on_equal_instants [of "\<lparr> clock = fixedClock 1718028000000, reads = 0 \<rparr>"] o
    by (simp add: fixedClock_def e s h isNYSEHolidaySimple_def)
qed




text \<open>
  Claim C3 at 2024-06-11 02:00:00 UTC, which is 2024-06-10 22:00:00 EDT: the Eastern day
  count is 19884, Monday 10 June 2024, but \<^verbatim>\<open>convertUTCToEastern\<close> returns day 11 and
  weekday 2 (Tuesday), the UTC date, next to the Eastern hour 22. The second file's
  \<^verbatim>\<open>convertUTCToEasternSimple\<close> returns weekday 1 there.
\<close>

theorem convertUTCToEastern_returns_utc_date:
  "convertUTCToEastern 1718071200000
     = \<lparr> year = 2024, month = 6, day = 11, weekday = 2,
         hour = 22, minute = 0, second = 0, isDST = True \<rparr>
   \<and> (1718071200000 div 1000 + (- 4) * 3600) div 86400 = (19884 :: int)
   \<and> daysSinceEpochToDate 19884 = \<lparr> year = 2024, month = 6, day = 10, weekday = 1 \<rparr>
   \<and> weekday (convertUTCToEasternSimple 1718071200000) = 1"
  by code_simp

end
